theory Spec2Isabelle
  imports Main "HOL-Library.Word"
begin

unbundle bit_operations_syntax

text \<open>
  The two modules of the repository: \<^verbatim>\<open>src/chat.py\<close>, the chat session that holds the
  documents and builds the prompt (the \<^verbatim>\<open>ChatSession\<close> of the specification, whose
  \<^verbatim>\<open>list_documents\<close> is \<^verbatim>\<open>get_document_list\<close>), and \<^verbatim>\<open>src/document_loader.py\<close>, the
  extraction of text from bytes, files and URLs. A method that can raise returns a sum:
  \<open>Inl\<close> the exception, \<open>Inr\<close> the value. What a method calls outside the repository is a
  parameter, or is defined here after the library where a claim depends on it.
\<close>

section \<open>Python values\<close>

text \<open>
  A Python \<^verbatim>\<open>str\<close> is a sequence of Unicode code points and a \<^verbatim>\<open>bytes\<close> object a
  sequence of octets. ASCII literals of the source are written \<open>ascii ''...''\<close>; the
  Japanese literals are given as their code points.
\<close>

type_synonym ustr = "nat list"
type_synonym byte = "8 word"

definition ascii :: "string \<Rightarrow> ustr" where
  "ascii s = map of_char s"

text \<open>\<^verbatim>\<open>sep.join(parts)\<close>.\<close>

fun str_join :: "ustr \<Rightarrow> ustr list \<Rightarrow> ustr" where
  "str_join sep [] = []"
| "str_join sep [p] = p"
| "str_join sep (p # q # ps) = p @ sep @ str_join sep (q # ps)"

text \<open>\<^verbatim>\<open>s.startswith(p)\<close>.\<close>

definition startswith :: "ustr \<Rightarrow> ustr \<Rightarrow> bool" where
  "startswith s p = (take (length p) s = p)"

subsection \<open>Dictionaries\<close>

text \<open>
  A Python \<^verbatim>\<open>dict\<close> keeps its keys in insertion order: assigning to a key that is present
  replaces the value where the key stands, assigning to a new key appends it, and
  \<^verbatim>\<open>del d[k]\<close> raises \<^verbatim>\<open>KeyError\<close> when the key is absent. The dictionary is the list of its
  items in that order; its keys are distinct.
\<close>

type_synonym 'v pydict = "(ustr \<times> 'v) list"

datatype chat_error = KeyError ustr

definition dict_contains :: "ustr \<Rightarrow> 'v pydict \<Rightarrow> bool" where
  "dict_contains k d = (k \<in> set (map fst d))"

fun dict_setitem :: "ustr \<Rightarrow> 'v \<Rightarrow> 'v pydict \<Rightarrow> 'v pydict" where
  "dict_setitem k v [] = [(k, v)]"
| "dict_setitem k v ((k', v') # d) =
     (if k' = k then (k', v) # d else (k', v') # dict_setitem k v d)"

fun dict_delitem :: "ustr \<Rightarrow> 'v pydict \<Rightarrow> chat_error + 'v pydict" where
  "dict_delitem k [] = Inl (KeyError k)"
| "dict_delitem k ((k', v') # d) =
     (if k' = k then Inr d
      else (case dict_delitem k d of
              Inl e \<Rightarrow> Inl e
            | Inr d' \<Rightarrow> Inr ((k', v') # d')))"

definition dict_keys :: "'v pydict \<Rightarrow> ustr list" where
  "dict_keys d = map fst d"

definition dict_invariant :: "'v pydict \<Rightarrow> bool" where
  "dict_invariant d = distinct (map fst d)"

section \<open>chat.py: the class GeminiChat\<close>

text \<open>
  The model client is the object returned by \<^verbatim>\<open>genai.GenerativeModel(model_name)\<close>. Its
  method \<^verbatim>\<open>generate_content(prompt)\<close> returns a response or raises; reading the
  property \<^verbatim>\<open>response.text\<close> returns a string or raises. A \<open>model_failure\<close> is an
  instance of \<^verbatim>\<open>Exception\<close> with the string \<^verbatim>\<open>str(e)\<close>: what a failed call raises
  (an error of the network, of the quota, of the credential, a blocked response). An
  interrupt of the process (\<^verbatim>\<open>KeyboardInterrupt\<close>, \<^verbatim>\<open>SystemExit\<close>) is not an instance of
  \<^verbatim>\<open>Exception\<close> and is not a result of the call.
\<close>

datatype model_failure = ModelFailure (failure_str: ustr)

datatype response = Response (response_text: "model_failure + ustr")

record GeminiChat =
  model :: "ustr \<Rightarrow> model_failure + response"
  documents :: "ustr pydict"

text \<open>\<^verbatim>\<open>__init__\<close>: the configured client and an empty dictionary.\<close>

definition init :: "(ustr \<Rightarrow> model_failure + response) \<Rightarrow> GeminiChat" where
  "init client = \<lparr>model = client, documents = []\<rparr>"

definition add_document :: "GeminiChat \<Rightarrow> ustr \<Rightarrow> ustr \<Rightarrow> GeminiChat" where
  "add_document self filename content =
     self\<lparr>documents := dict_setitem filename content (documents self)\<rparr>"

definition remove_document :: "GeminiChat \<Rightarrow> ustr \<Rightarrow> chat_error + GeminiChat" where
  "remove_document self filename =
     (if dict_contains filename (documents self)
      then (case dict_delitem filename (documents self) of
              Inl e \<Rightarrow> Inl e
            | Inr d \<Rightarrow> Inr (self\<lparr>documents := d\<rparr>))
      else Inr self)"

definition clear_documents :: "GeminiChat \<Rightarrow> GeminiChat" where
  "clear_documents self = self\<lparr>documents := []\<rparr>"

definition get_document_list :: "GeminiChat \<Rightarrow> ustr list" where
  "get_document_list self = dict_keys (documents self)"

subsection \<open>The literals of generate\<close>

text \<open>The string returned when no document is registered (line 55).\<close>

definition no_documents_message :: ustr where
  "no_documents_message =
    [0x30C9, 0x30AD, 0x30E5, 0x30E1, 0x30F3, 0x30C8, 0x304C, 0x30A2, 0x30C3, 0x30D7,
     0x30ED, 0x30FC, 0x30C9, 0x3055, 0x308C, 0x3066, 0x3044, 0x307E, 0x305B, 0x3093,
     0x3002, 0x30B5, 0x30A4, 0x30C9, 0x30D0, 0x30FC, 0x304B, 0x3089, 0x30D5, 0x30A1,
     0x30A4, 0x30EB, 0x3092, 0x30A2, 0x30C3, 0x30D7, 0x30ED, 0x30FC, 0x30C9, 0x3057,
     0x3066, 0x304F, 0x3060, 0x3055, 0x3044, 0x3002]"

text \<open>
  The prompt is one f-string (lines 65 to 80) with the two fields \<^verbatim>\<open>{context}\<close> and
  \<^verbatim>\<open>{query}\<close>. Its literal text is cut here into consecutive pieces: the persona
  preamble (lines 65 to 67), the rules with their heading (lines 68 to 73), the heading
  of the documents (line 74), the heading of the question (lines 76 and 77, with the
  line break that ends line 75) and the heading of the answer (lines 79 and 80, with the
  line break that ends line 78).
\<close>

definition preamble :: ustr where
  "preamble =
    [0x3042, 0x306A, 0x305F, 0x306F, 0x89AA, 0x5207, 0x3067, 0x77E5, 0x8B58, 0x8C4A,
     0x5BCC, 0x306A, 0x30A2, 0x30B7, 0x30B9, 0x30BF, 0x30F3, 0x30C8, 0x3067, 0x3059,
     0x3002, 0xA, 0x4EE5, 0x4E0B, 0x306E, 0x30C9, 0x30AD, 0x30E5, 0x30E1, 0x30F3,
     0x30C8, 0x306E, 0x5185, 0x5BB9, 0x3092, 0x53C2, 0x8003, 0x306B, 0x3001, 0x30E6,
     0x30FC, 0x30B6, 0x30FC, 0x306E, 0x8CEA, 0x554F, 0x306B, 0x65E5, 0x672C, 0x8A9E,
     0x3067, 0x56DE, 0x7B54, 0x3057, 0x3066, 0x304F, 0x3060, 0x3055, 0x3044, 0x3002,
     0xA, 0xA]"

definition rule_set :: ustr where
  "rule_set =
    [0x23, 0x23, 0x20, 0x30EB, 0x30FC, 0x30EB, 0xA, 0x2D, 0x20, 0x30C9,
     0x30AD, 0x30E5, 0x30E1, 0x30F3, 0x30C8, 0x306E, 0x5185, 0x5BB9, 0x306B, 0x57FA,
     0x3065, 0x3044, 0x3066, 0x6B63, 0x78BA, 0x306B, 0x56DE, 0x7B54, 0x3057, 0x3066,
     0x304F, 0x3060, 0x3055, 0x3044, 0xA, 0x2D, 0x20, 0x30C9, 0x30AD, 0x30E5,
     0x30E1, 0x30F3, 0x30C8, 0x306B, 0x60C5, 0x5831, 0x304C, 0x306A, 0x3044, 0x5834,
     0x5408, 0x306F, 0x3001, 0x305D, 0x306E, 0x65E8, 0x3092, 0x4F1D, 0x3048, 0x3066,
     0x304F, 0x3060, 0x3055, 0x3044, 0xA, 0x2D, 0x20, 0x56DE, 0x7B54, 0x306F,
     0x5206, 0x304B, 0x308A, 0x3084, 0x3059, 0x304F, 0x3001, 0x7C21, 0x6F54, 0x306B,
     0x3057, 0x3066, 0x304F, 0x3060, 0x3055, 0x3044, 0xA, 0x2D, 0x20, 0x5FC5,
     0x8981, 0x306B, 0x5FDC, 0x3058, 0x3066, 0x7B87, 0x6761, 0x66F8, 0x304D, 0x3084,
     0x898B, 0x51FA, 0x3057, 0x3092, 0x4F7F, 0x3063, 0x3066, 0x304F, 0x3060, 0x3055,
     0x3044, 0xA, 0xA]"

definition documents_heading :: ustr where
  "documents_heading =
    [0x23, 0x23, 0x20, 0x30C9, 0x30AD, 0x30E5, 0x30E1, 0x30F3, 0x30C8, 0xA]"

definition question_heading :: ustr where
  "question_heading =
    [0xA, 0xA, 0x23, 0x23, 0x20, 0x30E6, 0x30FC, 0x30B6, 0x30FC, 0x306E,
     0x8CEA, 0x554F, 0xA]"

definition answer_heading :: ustr where
  "answer_heading =
    [0xA, 0xA, 0x23, 0x23, 0x20, 0x56DE, 0x7B54]"

text \<open>The literal of the f-string of the handler (line 86), before \<^verbatim>\<open>{str(e)}\<close>.\<close>

definition error_prefix :: ustr where
  "error_prefix =
    [0x30A8, 0x30E9, 0x30FC, 0x304C, 0x767A, 0x751F, 0x3057, 0x307E, 0x3057, 0x305F,
     0x3A, 0x20]"

subsection \<open>generate\<close>

text \<open>
  The loop of lines 58 to 60 over \<^verbatim>\<open>self.documents.items()\<close>, appending one formatted
  section to \<^verbatim>\<open>context_parts\<close> per document.
\<close>

fun context_parts_loop :: "(ustr \<times> ustr) list \<Rightarrow> ustr list \<Rightarrow> ustr list" where
  "context_parts_loop [] context_parts = context_parts"
| "context_parts_loop ((filename, content) # items) context_parts =
     context_parts_loop items
       (context_parts @ [ascii ''=== '' @ filename @ ascii '' ===\<newline>'' @ content])"

text \<open>
  \<^verbatim>\<open>try: body except Exception as e: handler(e)\<close>, and the sequencing of two statements
  that may raise.
\<close>

definition try_except :: "(model_failure + 'a) \<Rightarrow> (model_failure \<Rightarrow> model_failure + 'a) \<Rightarrow>
    model_failure + 'a" where
  "try_except body handler = (case body of Inl e \<Rightarrow> handler e | Inr v \<Rightarrow> Inr v)"

definition and_then :: "(model_failure + 'a) \<Rightarrow> ('a \<Rightarrow> model_failure + 'b) \<Rightarrow>
    model_failure + 'b" where
  "and_then r f = (case r of Inl e \<Rightarrow> Inl e | Inr v \<Rightarrow> f v)"

text \<open>
  The call of the model client. The second component is the log of the prompts sent to
  the client: this is the only place where a call is made.
\<close>

definition generate_content ::
    "GeminiChat \<Rightarrow> ustr \<Rightarrow> (model_failure + response) \<times> ustr list" where
  "generate_content self prompt = (model self prompt, [prompt])"

text \<open>
  \<^verbatim>\<open>generate(query)\<close> returns the answer (\<open>Inr\<close>) or raises (\<open>Inl\<close>), together with the
  log of the calls of the model client it made.
\<close>

definition generate :: "GeminiChat \<Rightarrow> ustr \<Rightarrow> (model_failure + ustr) \<times> ustr list" where
  "generate self query =
     (if documents self = [] then (Inr no_documents_message, [])
      else
        let context_parts = context_parts_loop (documents self) [];
            context = str_join (ascii ''\<newline>\<newline>'') context_parts;
            prompt = preamble @ rule_set @ documents_heading @ context
                       @ question_heading @ query @ answer_heading;
            (outcome, calls) = generate_content self prompt
        in (try_except
              (and_then outcome (\<lambda>response. response_text response))
              (\<lambda>e. Inr (error_prefix @ failure_str e)),
            calls))"

section \<open>document_loader.py: the class DocumentLoader\<close>

text \<open>
  The exceptions \<^verbatim>\<open>load\<close> can raise: the \<^verbatim>\<open>ValueError\<close> of the source with its message,
  the \<^verbatim>\<open>UnicodeDecodeError\<close> of \<^verbatim>\<open>bytes.decode\<close>, the \<^verbatim>\<open>HTTPError\<close> of
  \<^verbatim>\<open>Response.raise_for_status\<close> with the status code, and any other exception of a
  library, with the name of its class. In the words of the specification, the
  \<^verbatim>\<open>ValueError\<close> of line 42 is \<^verbatim>\<open>UnsupportedSourceType\<close>, that of line 60 is
  \<^verbatim>\<open>UnsupportedFormat\<close>, and \<^verbatim>\<open>HTTPError\<close> is a \<^verbatim>\<open>FetchError\<close>.
\<close>

datatype load_error =
    ValueError ustr
  | UnicodeDecodeError
  | HTTPError nat
  | LibraryError string

subsection \<open>bytes.decode\<close>

text \<open>
  A decoder reads the input from left to right. At each position it either decodes
  one code point from the next bytes or finds a malformed range of bytes, which it hands
  to the error handler named by \<^verbatim>\<open>errors\<close>: \<^verbatim>\<open>strict\<close> raises \<^verbatim>\<open>UnicodeDecodeError\<close>,
  \<^verbatim>\<open>ignore\<close> skips the range, \<^verbatim>\<open>replace\<close> puts U+FFFD for the range; decoding then
  goes on after the range.
\<close>

datatype errors = Strict | Ignore | Replace

datatype scan = Decoded nat nat | Malformed nat

definition is_continuation :: "byte \<Rightarrow> bool" where
  "is_continuation b = (0x80 \<le> b \<and> b < 0xC0)"

text \<open>
  UTF-8 at the byte \<open>b0\<close> followed by \<open>rest\<close>: \<open>Decoded cp n\<close> when the next \<open>n\<close> bytes
  encode \<open>cp\<close>, \<open>Malformed n\<close> when the next \<open>n\<close> bytes are the malformed range (an
  invalid start byte, the bytes before an invalid continuation byte, or a sequence cut
  short by the end of the data). Overlong forms, surrogates and code points above
  U+10FFFF are malformed.
\<close>

definition utf8_scan :: "byte \<Rightarrow> byte list \<Rightarrow> scan" where
  "utf8_scan b0 rest =
     (if b0 < 0x80 then Decoded (unat b0) 1
      else if b0 < 0xC2 then Malformed 1
      else if b0 < 0xE0 then
        (case rest of
           [] \<Rightarrow> Malformed 1
         | b1 # _ \<Rightarrow>
             if is_continuation b1
             then Decoded (unat (b0 AND 0x1F) * 64 + unat (b1 AND 0x3F)) 2
             else Malformed 1)
      else if b0 < 0xF0 then
        (case rest of
           [] \<Rightarrow> Malformed 1
         | b1 # rest1 \<Rightarrow>
             if \<not> is_continuation b1 \<or> (b0 = 0xE0 \<and> b1 < 0xA0) \<or> (b0 = 0xED \<and> 0xA0 \<le> b1)
             then Malformed 1
             else
               (case rest1 of
                  [] \<Rightarrow> Malformed 2
                | b2 # _ \<Rightarrow>
                    if is_continuation b2
                    then Decoded (unat (b0 AND 0x0F) * 4096 + unat (b1 AND 0x3F) * 64
                                    + unat (b2 AND 0x3F)) 3
                    else Malformed 2))
      else if b0 < 0xF5 then
        (case rest of
           [] \<Rightarrow> Malformed 1
         | b1 # rest1 \<Rightarrow>
             if \<not> is_continuation b1 \<or> (b0 = 0xF0 \<and> b1 < 0x90) \<or> (b0 = 0xF4 \<and> 0x90 \<le> b1)
             then Malformed 1
             else
               (case rest1 of
                  [] \<Rightarrow> Malformed 2
                | b2 # rest2 \<Rightarrow>
                    if \<not> is_continuation b2 then Malformed 2
                    else
                      (case rest2 of
                         [] \<Rightarrow> Malformed 3
                       | b3 # _ \<Rightarrow>
                           if is_continuation b3
                           then Decoded (unat (b0 AND 0x07) * 262144 + unat (b1 AND 0x3F) * 4096
                                           + unat (b2 AND 0x3F) * 64 + unat (b3 AND 0x3F)) 4
                           else Malformed 3)))
      else Malformed 1)"

text \<open>\<^verbatim>\<open>data.decode("utf-8", errors=errors)\<close>.\<close>

fun utf8_decode :: "errors \<Rightarrow> byte list \<Rightarrow> load_error + ustr" where
  "utf8_decode errors [] = Inr []"
| "utf8_decode errors (b0 # rest) =
     (case utf8_scan b0 rest of
        Decoded cp n \<Rightarrow>
          (case utf8_decode errors (drop (n - 1) rest) of
             Inl e \<Rightarrow> Inl e
           | Inr s \<Rightarrow> Inr (cp # s))
      | Malformed n \<Rightarrow>
          (case errors of
             Strict \<Rightarrow> Inl UnicodeDecodeError
           | Ignore \<Rightarrow> utf8_decode errors (drop (n - 1) rest)
           | Replace \<Rightarrow>
               (case utf8_decode errors (drop (n - 1) rest) of
                  Inl e \<Rightarrow> Inl e
                | Inr s \<Rightarrow> Inr (0xFFFD # s))))"

text \<open>
  The codecs \<^verbatim>\<open>cp932\<close> and \<^verbatim>\<open>shift_jis\<close> are double-byte codecs: a byte is either a
  character by itself or the lead byte of a pair that the codec's table maps to a code
  point. The single bytes are given here; the tables of the pairs are parameters. The
  source decodes with these codecs in strict mode only: a lead byte at the end of the
  data and a pair that the table does not map raise \<^verbatim>\<open>UnicodeDecodeError\<close>.
\<close>

definition cp932_single :: "byte \<Rightarrow> nat option" where
  "cp932_single b =
     (if b \<le> 0x80 then Some (unat b)
      else if b = 0xA0 then Some 0xF8F0
      else if 0xA1 \<le> b \<and> b \<le> 0xDF then Some (0xFEC0 + unat b)
      else if 0xFD \<le> b then Some (0xF8F1 + (unat b - 0xFD))
      else None)"

definition shift_jis_single :: "byte \<Rightarrow> nat option" where
  "shift_jis_single b =
     (if b < 0x80 then Some (unat b)
      else if 0xA1 \<le> b \<and> b \<le> 0xDF then Some (0xFEC0 + unat b)
      else None)"

fun dbcs_decode ::
    "(byte \<Rightarrow> nat option) \<Rightarrow> (byte \<Rightarrow> byte \<Rightarrow> nat option) \<Rightarrow> byte list \<Rightarrow> load_error + ustr" where
  "dbcs_decode single pair [] = Inr []"
| "dbcs_decode single pair [b] =
     (case single b of
        Some cp \<Rightarrow> Inr [cp]
      | None \<Rightarrow> Inl UnicodeDecodeError)"
| "dbcs_decode single pair (b # b2 # rest) =
     (case single b of
        Some cp \<Rightarrow>
          (case dbcs_decode single pair (b2 # rest) of
             Inl e \<Rightarrow> Inl e
           | Inr s \<Rightarrow> Inr (cp # s))
      | None \<Rightarrow>
          (case pair b b2 of
             None \<Rightarrow> Inl UnicodeDecodeError
           | Some cp \<Rightarrow>
               (case dbcs_decode single pair rest of
                  Inl e \<Rightarrow> Inl e
                | Inr s \<Rightarrow> Inr (cp # s))))"

subsection \<open>Strings and paths\<close>

text \<open>\<^verbatim>\<open>s.split(c)\<close> for a separator of one character.\<close>

fun split_chr :: "nat \<Rightarrow> ustr \<Rightarrow> ustr list" where
  "split_chr c [] = [[]]"
| "split_chr c (x # xs) =
     (if x = c then [] # split_chr c xs
      else (case split_chr c xs of
              [] \<Rightarrow> [[x]]
            | p # ps \<Rightarrow> (x # p) # ps))"

text \<open>\<^verbatim>\<open>s.rfind(c)\<close>: the last index of \<open>c\<close>, or \<open>-1\<close>; \<open>i\<close> is the index of the head.\<close>

fun rfind_from :: "int \<Rightarrow> nat \<Rightarrow> ustr \<Rightarrow> int" where
  "rfind_from i c [] = -1"
| "rfind_from i c (x # xs) =
     (let j = rfind_from (i + 1) c xs
      in if j \<noteq> -1 then j else if x = c then i else -1)"

definition rfind :: "nat \<Rightarrow> ustr \<Rightarrow> int" where
  "rfind c s = rfind_from 0 c s"

text \<open>
  \<^verbatim>\<open>str.isspace\<close> of one character, and \<^verbatim>\<open>s.strip()\<close>.
\<close>

definition is_space :: "nat \<Rightarrow> bool" where
  "is_space c =
     ((0x9 \<le> c \<and> c \<le> 0xD) \<or> (0x1C \<le> c \<and> c \<le> 0x20) \<or> c = 0x85 \<or> c = 0xA0
      \<or> c = 0x1680 \<or> (0x2000 \<le> c \<and> c \<le> 0x200A) \<or> c = 0x2028 \<or> c = 0x2029
      \<or> c = 0x202F \<or> c = 0x205F \<or> c = 0x3000)"

definition strip :: "ustr \<Rightarrow> ustr" where
  "strip s = rev (dropWhile is_space (rev (dropWhile is_space s)))"

text \<open>
  \<^verbatim>\<open>Path(s).name\<close> on a POSIX system: the last component of the path, where empty
  components and \<^verbatim>\<open>.\<close> are dropped, and the empty string when there is none.
\<close>

definition path_name :: "ustr \<Rightarrow> ustr" where
  "path_name s =
     (case filter (\<lambda>x. x \<noteq> [] \<and> x \<noteq> ascii ''.'') (split_chr 0x2F s) of
        [] \<Rightarrow> []
      | parts \<Rightarrow> last parts)"

text \<open>
  \<^verbatim>\<open>Path(s).suffix\<close>: the name from its last dot on, when that dot is neither the first
  nor the last character of the name; the empty string otherwise.
\<close>

definition suffix :: "ustr \<Rightarrow> ustr" where
  "suffix s =
     (let name = path_name s; i = rfind 0x2E name
      in if 0 < i \<and> i < int (length name) - 1 then drop (nat i) name else [])"

subsection \<open>The libraries and the environment\<close>

record http_response =
  status_code :: nat
  body :: ustr

text \<open>
  What the loader calls outside the repository, as parameters:
  \<^item> \<open>str_lower\<close>: \<^verbatim>\<open>str.lower\<close>, the lower-casing of the Unicode character database;
  \<^item> \<open>open_rb\<close>: \<^verbatim>\<open>open(path, "rb")\<close> and \<^verbatim>\<open>f.read()\<close>, the file's bytes or the
    exception raised;
  \<^item> \<open>cp932_table\<close>, \<open>shift_jis_table\<close>: the tables of the double-byte codecs;
  \<^item> \<open>pdf_pages\<close>: \<^verbatim>\<open>PdfReader(io.BytesIO(data)).pages\<close>, with what \<^verbatim>\<open>extract_text()\<close>
    gives for each page, or the exception raised by the reader;
  \<^item> \<open>read_csv\<close> and \<open>to_markdown\<close>: \<^verbatim>\<open>pd.read_csv(io.StringIO(text))\<close> and
    \<^verbatim>\<open>df.to_markdown(index=False)\<close>;
  \<^item> \<open>requests_get\<close>: \<^verbatim>\<open>requests.get(url, headers=headers, timeout=timeout)\<close>;
  \<^item> \<open>soup_get_text\<close>: the text of the page body by \<^verbatim>\<open>BeautifulSoup\<close> (lines 99 to 106):
    parse, remove the six kinds of tags, \<^verbatim>\<open>get_text(separator="\n", strip=True)\<close>.
\<close>

record 'df externals =
  str_lower :: "ustr \<Rightarrow> ustr"
  open_rb :: "ustr \<Rightarrow> load_error + byte list"
  cp932_table :: "byte \<Rightarrow> byte \<Rightarrow> nat option"
  shift_jis_table :: "byte \<Rightarrow> byte \<Rightarrow> nat option"
  pdf_pages :: "byte list \<Rightarrow> load_error + (load_error + ustr) list"
  read_csv :: "ustr \<Rightarrow> load_error + 'df"
  to_markdown :: "'df \<Rightarrow> load_error + ustr"
  requests_get :: "ustr \<Rightarrow> (ustr \<times> ustr) list \<Rightarrow> nat \<Rightarrow> load_error + http_response"
  soup_get_text :: "ustr \<Rightarrow> load_error + ustr"

text \<open>
  \<^verbatim>\<open>response.raise_for_status()\<close> of the requests library: it raises \<^verbatim>\<open>HTTPError\<close> for
  a status code from 400 to 599 and returns for every other status code.
\<close>

definition raise_for_status :: "http_response \<Rightarrow> load_error + unit" where
  "raise_for_status response =
     (if 400 \<le> status_code response \<and> status_code response < 600
      then Inl (HTTPError (status_code response))
      else Inr ())"

subsection \<open>The methods\<close>

text \<open>The source of \<^verbatim>\<open>load\<close>: a string, a bytes object, or an object of another type
  (with the text of \<^verbatim>\<open>type(source)\<close>).\<close>

datatype source =
    is_str: Str (the_str: ustr)
  | is_bytes: Bytes (the_bytes: "byte list")
  | Other (type_repr: ustr)

datatype encoding = UTF8 | CP932 | SHIFT_JIS

text \<open>\<^verbatim>\<open>data.decode(encoding)\<close> for the three names of line 77.\<close>

definition decode :: "'df externals \<Rightarrow> encoding \<Rightarrow> byte list \<Rightarrow> load_error + ustr" where
  "decode env encoding data =
     (case encoding of
        UTF8 \<Rightarrow> utf8_decode Strict data
      | CP932 \<Rightarrow> dbcs_decode cp932_single (cp932_table env) data
      | SHIFT_JIS \<Rightarrow> dbcs_decode shift_jis_single (shift_jis_table env) data)"

text \<open>
  The loop of lines 77 to 81: \<open>Some r\<close> when the loop is left by \<^verbatim>\<open>return\<close> or by an
  exception that the handler does not catch, \<open>None\<close> when the list is exhausted.
\<close>

fun load_text_loop ::
    "'df externals \<Rightarrow> encoding list \<Rightarrow> byte list \<Rightarrow> (load_error + ustr) option" where
  "load_text_loop env [] data = None"
| "load_text_loop env (encoding # encodings) data =
     (case decode env encoding data of
        Inr s \<Rightarrow> Some (Inr s)
      | Inl e \<Rightarrow>
          if e = UnicodeDecodeError then load_text_loop env encodings data
          else Some (Inl e))"

definition load_text :: "'df externals \<Rightarrow> byte list \<Rightarrow> load_error + ustr" where
  "load_text env data =
     (case load_text_loop env [UTF8, CP932, SHIFT_JIS] data of
        Some r \<Rightarrow> r
      | None \<Rightarrow> utf8_decode Ignore data)"

text \<open>The loop of lines 68 to 71 over the pages.\<close>

fun load_pdf_loop :: "(load_error + ustr) list \<Rightarrow> ustr list \<Rightarrow> load_error + ustr list" where
  "load_pdf_loop [] texts = Inr texts"
| "load_pdf_loop (page # pages) texts =
     (case page of
        Inl e \<Rightarrow> Inl e
      | Inr text \<Rightarrow> load_pdf_loop pages (if text \<noteq> [] then texts @ [text] else texts))"

definition load_pdf :: "'df externals \<Rightarrow> byte list \<Rightarrow> load_error + ustr" where
  "load_pdf env data =
     (case pdf_pages env data of
        Inl e \<Rightarrow> Inl e
      | Inr pages \<Rightarrow>
          (case load_pdf_loop pages [] of
             Inl e \<Rightarrow> Inl e
           | Inr texts \<Rightarrow> Inr (str_join (ascii ''\<newline>'') texts)))"

definition load_csv :: "'df externals \<Rightarrow> byte list \<Rightarrow> load_error + ustr" where
  "load_csv env data =
     (case load_text env data of
        Inl e \<Rightarrow> Inl e
      | Inr text \<Rightarrow>
          (case read_csv env text of
             Inl e \<Rightarrow> Inl e
           | Inr df \<Rightarrow> to_markdown env df))"

text \<open>
  \<^verbatim>\<open>_load_bytes\<close>: the dictionary of the loaders, \<^verbatim>\<open>loaders.get(ext)\<close> and the test of
  its result.
\<close>

definition load_bytes :: "'df externals \<Rightarrow> byte list \<Rightarrow> ustr \<Rightarrow> load_error + ustr" where
  "load_bytes env data ext =
     (let loaders =
            [(ascii ''.pdf'', load_pdf env),
             (ascii ''.txt'', load_text env),
             (ascii ''.md'', load_text env),
             (ascii ''.csv'', load_csv env)]
      in case map_of loaders ext of
           None \<Rightarrow> Inl (ValueError (ascii ''Unsupported file type: '' @ ext))
         | Some loader \<Rightarrow> loader data)"

definition load_file :: "'df externals \<Rightarrow> ustr \<Rightarrow> ustr \<Rightarrow> load_error + ustr" where
  "load_file env path ext =
     (case open_rb env path of
        Inl e \<Rightarrow> Inl e
      | Inr data \<Rightarrow> load_bytes env data ext)"

definition user_agent :: "(ustr \<times> ustr) list" where
  "user_agent =
     [(ascii ''User-Agent'',
       ascii ''Mozilla/5.0 (Windows NT 10.0; Win64; x64) AppleWebKit/537.36'')]"

definition load_web :: "'df externals \<Rightarrow> ustr \<Rightarrow> load_error + ustr" where
  "load_web env url =
     (case requests_get env url user_agent 10 of
        Inl e \<Rightarrow> Inl e
      | Inr response \<Rightarrow>
          (case raise_for_status response of
             Inl e \<Rightarrow> Inl e
           | Inr _ \<Rightarrow>
               (case soup_get_text env (body response) of
                  Inl e \<Rightarrow> Inl e
                | Inr text \<Rightarrow>
                    Inr (str_join (ascii ''\<newline>'')
                           (map strip (filter (\<lambda>line. strip line \<noteq> []) (split_chr 0xA text)))))))"

text \<open>\<^verbatim>\<open>load(source, filename)\<close>, the tests in the order of lines 29 to 42.\<close>

definition load :: "'df externals \<Rightarrow> source \<Rightarrow> ustr \<Rightarrow> load_error + ustr" where
  "load env source filename =
     (if is_str source
         \<and> (startswith (the_str source) (ascii ''http://'')
              \<or> startswith (the_str source) (ascii ''https://''))
      then load_web env (the_str source)
      else if is_bytes source
      then load_bytes env (the_bytes source) (str_lower env (suffix filename))
      else if is_str source
      then load_file env (the_str source) (str_lower env (suffix (the_str source)))
      else Inl (ValueError (ascii ''Unsupported source type: '' @ type_repr source)))"

section \<open>Sample sessions and environments\<close>

text \<open>
  Model clients for concrete sessions: one that answers with the prompt it was sent, and
  one whose call always raises.
\<close>

definition echo_model :: "ustr \<Rightarrow> model_failure + response" where
  "echo_model prompt = Inr (Response (Inr prompt))"

definition failing_model :: "ustr \<Rightarrow> model_failure + response" where
  "failing_model prompt = Inl (ModelFailure (ascii ''quota exceeded''))"

definition sample_chat :: GeminiChat where
  "sample_chat =
     \<lparr>model = echo_model,
      documents = [(ascii ''a.txt'', ascii ''alpha''), (ascii ''b.md'', ascii ''beta'')]\<rparr>"

text \<open>
  A sample environment of the loader. \<^verbatim>\<open>str.lower\<close> is given on ASCII letters; one
  file, \<^verbatim>\<open>notes.txt\<close>, exists and holds the bytes of \<^verbatim>\<open>hello\<close>; the tables of the
  double-byte codecs are cut down to two pairs, \<^verbatim>\<open>82 A0\<close> and \<^verbatim>\<open>81 60\<close>; the PDF
  reader rejects its input; a page has no markup, so that its text is the body stripped;
  every GET is answered with the given response.
\<close>

definition ascii_lower :: "ustr \<Rightarrow> ustr" where
  "ascii_lower s = map (\<lambda>c. if 0x41 \<le> c \<and> c \<le> 0x5A then c + 0x20 else c) s"

definition sample_env :: "http_response \<Rightarrow> unit externals" where
  "sample_env answer =
     \<lparr>str_lower = ascii_lower,
      open_rb = (\<lambda>path. if path = ascii ''notes.txt'' then Inr [0x68, 0x65, 0x6C, 0x6C, 0x6F]
                         else Inl (LibraryError ''FileNotFoundError'')),
      cp932_table = (\<lambda>b b2. if b = 0x82 \<and> b2 = 0xA0 then Some 0x3042
                              else if b = 0x81 \<and> b2 = 0x60 then Some 0xFF5E else None),
      shift_jis_table = (\<lambda>b b2. if b = 0x82 \<and> b2 = 0xA0 then Some 0x3042
                                  else if b = 0x81 \<and> b2 = 0x60 then Some 0x301C else None),
      pdf_pages = (\<lambda>data. Inl (LibraryError ''PdfReadError'')),
      read_csv = (\<lambda>text. Inr ()),
      to_markdown = (\<lambda>df. Inr []),
      requests_get = (\<lambda>url headers timeout. Inr answer),
      soup_get_text = (\<lambda>body. Inr (strip body))\<rparr>"

definition ok_response :: http_response where
  "ok_response = \<lparr>status_code = 200, body = []\<rparr>"

definition not_modified :: http_response where
  "not_modified = \<lparr>status_code = 304, body = []\<rparr>"

definition not_found :: http_response where
  "not_found = \<lparr>status_code = 404, body = ascii ''Not Found''\<rparr>"

section \<open>Properties of the dictionary\<close>

lemma dict_setitem_keys_present:
  "k \<in> set (map fst d) \<Longrightarrow> map fst (dict_setitem k v d) = map fst d"
  by (induction d) force+

lemma dict_setitem_keys_absent:
  "k \<notin> set (map fst d) \<Longrightarrow> dict_setitem k v d = d @ [(k, v)]"
  by (induction d) auto

lemma dict_setitem_items:
  "distinct (map fst d) \<Longrightarrow> k \<in> set (map fst d) \<Longrightarrow>
   dict_setitem k v d = map (\<lambda>(k', v'). (k', if k' = k then v else v')) d"
proof (induction d)
  case Nil
  then show ?case by simp
next
  case (Cons a d)
  obtain k' v' where a: "a = (k', v')" by (cases a)
  show ?case
  proof (cases "k' = k")
    case True
    with Cons.prems a have "k \<notin> set (map fst d)" by simp
    then have "map (\<lambda>(k', v'). (k', if k' = k then v else v')) d = d"
      by (induction d) auto
    with True a show ?thesis by simp
  next
    case False
    with Cons a show ?thesis by simp
  qed
qed

lemma dict_delitem_appended:
  "k \<notin> set (map fst d) \<Longrightarrow> dict_delitem k (d @ [(k, v)]) = Inr d"
  by (induction d) auto

lemma dict_setitem_invariant:
  "dict_invariant d \<Longrightarrow> dict_invariant (dict_setitem k v d)"
proof (cases "k \<in> set (map fst d)")
  case True
  assume "dict_invariant d"
  with True show ?thesis
    by (simp add: dict_invariant_def dict_setitem_keys_present)
next
  case False
  assume "dict_invariant d"
  with False show ?thesis
    by (simp add: dict_invariant_def dict_setitem_keys_absent)
qed

lemma dict_delitem_keys:
  "dict_delitem k d = Inr d' \<Longrightarrow> set (map fst d') \<subseteq> set (map fst d)"
proof (induction d arbitrary: d')
  case Nil
  then show ?case by simp
next
  case (Cons a d)
  obtain k' v' where a: "a = (k', v')" by (cases a)
  show ?case
  proof (cases "k' = k")
    case True
    with Cons.prems a show ?thesis by auto
  next
    case False
    with Cons.prems a obtain d'' where d'': "dict_delitem k d = Inr d''" "d' = (k', v') # d''"
      by (auto split: sum.splits)
    from Cons.IH [OF d''(1)] d''(2) a show ?thesis by auto
  qed
qed

lemma dict_delitem_invariant:
  "dict_invariant d \<Longrightarrow> dict_delitem k d = Inr d' \<Longrightarrow> dict_invariant d'"
proof (induction d arbitrary: d')
  case Nil
  then show ?case by simp
next
  case (Cons a d)
  obtain k' v' where a: "a = (k', v')" by (cases a)
  show ?case
  proof (cases "k' = k")
    case True
    with Cons.prems a show ?thesis by (simp add: dict_invariant_def)
  next
    case False
    with Cons.prems a obtain d'' where d'': "dict_delitem k d = Inr d''" "d' = (k', v') # d''"
      by (auto split: sum.splits)
    from Cons.prems a have "dict_invariant d" "k' \<notin> set (map fst d)"
      by (simp_all add: dict_invariant_def)
    with Cons.IH d'' dict_delitem_keys [OF d''(1)] show ?thesis
      by (auto simp: dict_invariant_def)
  qed
qed

lemma dict_delitem_present:
  "k \<in> set (map fst d) \<Longrightarrow> \<exists>d'. dict_delitem k d = Inr d'"
proof (induction d)
  case Nil
  then show ?case by simp
next
  case (Cons a d)
  obtain k' v' where a: "a = (k', v')" by (cases a)
  show ?case
  proof (cases "k' = k")
    case True
    with a show ?thesis by simp
  next
    case False
    with Cons.prems a have "k \<in> set (map fst d)" by auto
    from Cons.IH [OF this] obtain d' where "dict_delitem k d = Inr d'" by blast
    with False a show ?thesis by simp
  qed
qed

lemma dict_delitem_filter:
  "dict_invariant d \<Longrightarrow> k \<in> set (map fst d) \<Longrightarrow>
   dict_delitem k d = Inr (filter (\<lambda>(k', v'). k' \<noteq> k) d)"
proof (induction d)
  case Nil
  then show ?case by simp
next
  case (Cons a d)
  obtain k' v' where a: "a = (k', v')" by (cases a)
  show ?case
  proof (cases "k' = k")
    case True
    with Cons.prems a have "k \<notin> set (map fst d)"
      by (simp add: dict_invariant_def)
    then have "filter (\<lambda>(k', v'). k' \<noteq> k) d = d"
      by (induction d) auto
    with True a show ?thesis by simp
  next
    case False
    with Cons.prems a have "dict_invariant d" "k \<in> set (map fst d)"
      by (auto simp: dict_invariant_def)
    with Cons.IH False a show ?thesis by simp
  qed
qed

lemma dict_setitem_lookup: "map_of (dict_setitem k v d) = (map_of d)(k \<mapsto> v)"
  by (induction d) (auto simp: fun_eq_iff)

lemma dict_delitem_lookup:
  "dict_invariant d \<Longrightarrow> k \<in> set (map fst d) \<Longrightarrow>
   dict_delitem k d = Inr d' \<Longrightarrow> map_of d' = (map_of d)(k := None)"
proof -
  assume inv: "dict_invariant d" and k: "k \<in> set (map fst d)"
    and del: "dict_delitem k d = Inr d'"
  from dict_delitem_filter [OF inv k] del
  have "d' = filter (\<lambda>(k', v'). k' \<noteq> k) d" by simp
  moreover have "map_of (filter (\<lambda>(k', v'). k' \<noteq> k) d) = (map_of d)(k := None)"
    by (induction d) (auto simp: fun_eq_iff)
  ultimately show ?thesis by simp
qed

section \<open>Properties of the session\<close>

lemma context_parts_loop_map:
  "context_parts_loop items acc =
     acc @ map (\<lambda>(k, c). ascii ''=== '' @ k @ ascii '' ===\<newline>'' @ c) items"
  by (induction items acc rule: context_parts_loop.induct) auto

lemma str_join_butlast:
  "ps \<noteq> [] \<Longrightarrow> str_join sep ps = concat (map (\<lambda>p. p @ sep) (butlast ps)) @ last ps"
  by (induction sep ps rule: str_join.induct) auto

lemma init_invariant: "dict_invariant (documents (init client))"
  by (simp add: init_def dict_invariant_def)

lemma add_document_invariant:
  "dict_invariant (documents self) \<Longrightarrow>
   dict_invariant (documents (add_document self filename content))"
  by (simp add: add_document_def dict_setitem_invariant)

lemma remove_document_invariant:
  "dict_invariant (documents self) \<Longrightarrow> remove_document self filename = Inr self' \<Longrightarrow>
   dict_invariant (documents self')"
  by (auto simp: remove_document_def dict_delitem_invariant split: if_splits sum.splits)

lemma clear_documents_invariant: "dict_invariant (documents (clear_documents self))"
  by (simp add: clear_documents_def dict_invariant_def)

lemma remove_document_returns: "\<exists>self'. remove_document self filename = Inr self'"
proof (cases "dict_contains filename (documents self)")
  case True
  then obtain d where "dict_delitem filename (documents self) = Inr d"
    using dict_delitem_present [of filename "documents self"]
    by (auto simp: dict_contains_def)
  with True show ?thesis by (simp add: remove_document_def)
next
  case False
  then show ?thesis by (simp add: remove_document_def)
qed

lemma documents_in_insertion_order:
  "distinct (map fst items) \<Longrightarrow> set (map fst items) \<inter> set (get_document_list self) = {} \<Longrightarrow>
   documents (foldl (\<lambda>s (k, c). add_document s k c) self items) = documents self @ items"
proof (induction items arbitrary: self)
  case Nil
  then show ?case by simp
next
  case (Cons a items)
  obtain k c where a: "a = (k, c)" by (cases a)
  from Cons.prems a have absent: "k \<notin> set (map fst (documents self))"
    by (auto simp: get_document_list_def dict_keys_def)
  then have added: "documents (add_document self k c) = documents self @ [(k, c)]"
    by (simp add: add_document_def dict_setitem_keys_absent)
  from Cons.prems a have "distinct (map fst items)"
    and "set (map fst items) \<inter> set (get_document_list (add_document self k c)) = {}"
    by (auto simp: get_document_list_def dict_keys_def added)
  from Cons.IH [OF this] a added show ?case by simp
qed

section \<open>Properties of the loader\<close>

lemma utf8_decode_error: "utf8_decode errors data = Inl e \<Longrightarrow> e = UnicodeDecodeError"
  by (induction errors data arbitrary: e rule: utf8_decode.induct)
     (auto split: scan.splits sum.splits errors.splits)

lemma dbcs_decode_error: "dbcs_decode single pair data = Inl e \<Longrightarrow> e = UnicodeDecodeError"
  by (induction single pair data arbitrary: e rule: dbcs_decode.induct)
     (auto split: option.splits sum.splits)

lemma decode_error: "decode env encoding data = Inl e \<Longrightarrow> e = UnicodeDecodeError"
  by (cases encoding) (auto simp: decode_def dest: utf8_decode_error dbcs_decode_error)

lemma utf8_decode_ignore_total: "\<exists>s. utf8_decode Ignore data = Inr s"
proof (induction Ignore data rule: utf8_decode.induct)
  case 1
  show ?case by simp
next
  case (2 b0 rest)
  show ?case
  proof (cases "utf8_scan b0 rest")
    case (Decoded cp n)
    with "2.hyps"(1) [OF Decoded] show ?thesis by auto
  next
    case (Malformed n)
    with "2.hyps"(2) [OF Malformed] show ?thesis by auto
  qed
qed

lemma utf8_decode_modes:
  "\<exists>i r. utf8_decode Ignore data = Inr i \<and> utf8_decode Replace data = Inr r
         \<and> length i \<le> length r
         \<and> (case utf8_decode Strict data of
               Inr s \<Rightarrow> i = s \<and> r = s
             | Inl _ \<Rightarrow> length i < length r)"
proof (induction Ignore data rule: utf8_decode.induct)
  case 1
  show ?case by simp
next
  case (2 b0 rest)
  show ?case
  proof (cases "utf8_scan b0 rest")
    case (Decoded cp n)
    from "2.hyps"(1) [OF Decoded] obtain i r where
      "utf8_decode Ignore (drop (n - 1) rest) = Inr i"
      "utf8_decode Replace (drop (n - 1) rest) = Inr r"
      "length i \<le> length r"
      "case utf8_decode Strict (drop (n - 1) rest) of
         Inr s \<Rightarrow> i = s \<and> r = s
       | Inl _ \<Rightarrow> length i < length r"
      by blast
    with Decoded show ?thesis by (auto split: sum.splits)
  next
    case (Malformed n)
    from "2.hyps"(2) [OF Malformed] obtain i r where
      "utf8_decode Ignore (drop (n - 1) rest) = Inr i"
      "utf8_decode Replace (drop (n - 1) rest) = Inr r"
      "length i \<le> length r"
      by blast
    with Malformed show ?thesis by auto
  qed
qed

lemma utf8_ignore_is_not_replace:
  assumes "utf8_decode Strict data = Inl e"
  shows "utf8_decode Ignore data \<noteq> utf8_decode Replace data"
proof -
  from utf8_decode_modes [of data] assms obtain i r where
    "utf8_decode Ignore data = Inr i" "utf8_decode Replace data = Inr r" "length i < length r"
    by auto
  then show ?thesis by auto
qed

lemma load_text_lone_lead_byte:
  "decode env UTF8 [0x81] = Inl UnicodeDecodeError
   \<and> decode env CP932 [0x81] = Inl UnicodeDecodeError
   \<and> decode env SHIFT_JIS [0x81] = Inl UnicodeDecodeError
   \<and> load_text env [0x81] = Inr []"
  by (simp add: load_text_def decode_def utf8_scan_def is_continuation_def
        cp932_single_def shift_jis_single_def)

lemma split_chr_without: "c \<notin> set s \<Longrightarrow> split_chr c s = [s]"
  by (induction s) auto

lemma rfind_from_last:
  "c \<notin> set e \<Longrightarrow> 0 \<le> i \<Longrightarrow> rfind_from i c (stem @ c # e) = i + int (length stem)"
proof (induction stem arbitrary: i)
  case Nil
  have "rfind_from j c e = -1" for j
    using Nil.prems(1) by (induction e arbitrary: j) (auto simp: Let_def)
  then show ?case by (simp add: Let_def)
next
  case (Cons x stem)
  from Cons.prems have "0 \<le> i + 1" by simp
  from Cons.IH [OF Cons.prems(1) this] Cons.prems(2) show ?case
    by (simp add: Let_def)
qed

lemma suffix_simple_name:
  assumes "0x2F \<notin> set stem" and "0x2F \<notin> set e" and "0x2E \<notin> set e"
    and "stem \<noteq> []" and "e \<noteq> []"
  shows "suffix (stem @ 0x2E # e) = 0x2E # e"
proof -
  let ?s = "stem @ 0x2E # e"
  from assms have "(0x2F::nat) \<notin> set ?s" by simp
  then have "split_chr 0x2F ?s = [?s]" by (rule split_chr_without)
  moreover from assms have "?s \<noteq> ascii ''.''"
    by (cases stem) (auto simp: ascii_def)
  ultimately have name: "path_name ?s = ?s"
    by (simp add: path_name_def)
  have "rfind 0x2E ?s = int (length stem)"
    using assms(3) rfind_from_last [of "0x2E" e 0 stem] by (simp add: rfind_def)
  with name assms(4,5) show ?thesis
    by (simp add: suffix_def Let_def)
qed

lemma suffix_examples:
  "suffix (ascii ''Notes.TXT'') = ascii ''.TXT''"
  "suffix (ascii ''report.docx'') = ascii ''.docx''"
  "suffix (ascii ''docs/archive.tar.MD'') = ascii ''.MD''"
  "suffix (ascii ''.txt'') = []"
  "suffix (ascii ''notes.txt'') = ascii ''.txt''"
  "suffix (ascii ''missing.txt'') = ascii ''.txt''"
  by code_simp+



section \<open>Claims about generate\<close>

text \<open>
  C1. When no document is registered, \<open>generate\<close> returns the fixed message that asks
  for documents, whatever the query, and the log of calls of the model client is empty.
\<close>

theorem generate_empty_collection:
  "documents self = [] \<Longrightarrow> generate self query = (Inr no_documents_message, [])"
  by (simp add: generate_def)

theorem generate_empty_collection_witness:
  "documents (init failing_model) = []
   \<and> generate (init failing_model) (ascii ''hello?'') = (Inr no_documents_message, [])"
  using generate_empty_collection [of "init failing_model" "ascii ''hello?''"]
  by (simp add: init_def)

text \<open>
  C2. When a document is registered, \<open>generate\<close> calls the model client once, with a
  prompt made of the preamble, the rules, the heading of the documents, then for every
  document in the order of the dictionary the line \<^verbatim>\<open>=== key ===\<close> followed by the
  whole content, two line breaks between one document and the next, then the heading of
  the question, the query itself and the heading of the answer.
\<close>

theorem generate_prompt_layout:
  assumes "documents self \<noteq> []"
  shows "snd (generate self query) =
           [preamble @ rule_set @ documents_heading
            @ concat (map (\<lambda>(k, c). ascii ''=== '' @ k @ ascii '' ===\<newline>'' @ c
                                     @ ascii ''\<newline>\<newline>'')
                        (butlast (documents self)))
            @ (case last (documents self) of
                 (k, c) \<Rightarrow> ascii ''=== '' @ k @ ascii '' ===\<newline>'' @ c)
            @ question_heading @ query @ answer_heading]"
proof -
  let ?section = "\<lambda>(k, c). ascii ''=== '' @ k @ ascii '' ===\<newline>'' @ c"
  let ?layout =
    "concat (map (\<lambda>(k, c). ascii ''=== '' @ k @ ascii '' ===\<newline>'' @ c
                             @ ascii ''\<newline>\<newline>'')
                (butlast (documents self)))
     @ (case last (documents self) of
          (k, c) \<Rightarrow> ascii ''=== '' @ k @ ascii '' ===\<newline>'' @ c)"
  have parts: "context_parts_loop (documents self) [] = map ?section (documents self)"
    by (simp add: context_parts_loop_map)
  have ctx: "str_join (ascii ''\<newline>\<newline>'') (map ?section (documents self)) = ?layout"
  proof -
    have "str_join (ascii ''\<newline>\<newline>'') (map ?section (documents self)) =
            concat (map (\<lambda>p. p @ ascii ''\<newline>\<newline>'')
                      (butlast (map ?section (documents self))))
            @ last (map ?section (documents self))"
      using assms by (intro str_join_butlast) simp
    also have "\<dots> = ?layout"
      using assms by (simp add: map_butlast last_map case_prod_unfold comp_def)
    finally show ?thesis .
  qed
  show ?thesis
    using assms
    by (simp only: generate_def Let_def generate_content_def parts ctx if_False
          case_prod_conv snd_conv append_assoc)
qed

theorem generate_prompt_layout_witness:
  "documents sample_chat \<noteq> []
   \<and> snd (generate sample_chat (ascii ''Why?'')) =
       [preamble @ rule_set @ documents_heading
        @ ascii ''=== a.txt ===\<newline>alpha\<newline>\<newline>=== b.md ===\<newline>beta''
        @ question_heading @ ascii ''Why?'' @ answer_heading]"
  using generate_prompt_layout [of sample_chat "ascii ''Why?''"]
  by (simp add: sample_chat_def ascii_def)

text \<open>
  C3. \<open>generate\<close> returns a string for every session and query and never raises. When
  the call of the model client raises, or reading the text of its response raises, the
  string returned is the error prefix followed by the text of the exception.
\<close>

theorem generate_never_raises:
  "(\<exists>answer. fst (generate self query) = Inr answer)
   \<and> (\<forall>prompt e. snd (generate self query) = [prompt] \<and> model self prompt = Inl e
         \<longrightarrow> fst (generate self query) = Inr (error_prefix @ failure_str e))
   \<and> (\<forall>prompt r e. snd (generate self query) = [prompt] \<and> model self prompt = Inr r
           \<and> response_text r = Inl e
         \<longrightarrow> fst (generate self query) = Inr (error_prefix @ failure_str e))"
  by (auto simp: generate_def Let_def generate_content_def try_except_def and_then_def
        split: sum.splits)

theorem generate_never_raises_witness:
  "fst (generate (sample_chat\<lparr>model := failing_model\<rparr>) (ascii ''Why?'')) =
     Inr (error_prefix @ ascii ''quota exceeded'')"
  using generate_never_raises [of "sample_chat\<lparr>model := failing_model\<rparr>" "ascii ''Why?''"]
  by (simp add: generate_def Let_def generate_content_def try_except_def and_then_def
        sample_chat_def failing_model_def)

section \<open>Claims about the document collection\<close>

text \<open>
  C7, as stated, fails when the key is already registered: \<open>add_document\<close> overwrites
  the content and \<open>remove_document\<close> then removes the key, so the list of documents
  loses a key it had before.
\<close>

theorem add_then_remove_overwritten_counterexample:
  "get_document_list sample_chat = [ascii ''a.txt'', ascii ''b.md'']
   \<and> map_sum id get_document_list
        (remove_document (add_document sample_chat (ascii ''a.txt'') (ascii ''new''))
           (ascii ''a.txt'')) = Inr [ascii ''b.md'']"
  by (simp add: sample_chat_def get_document_list_def dict_keys_def add_document_def
        remove_document_def dict_contains_def ascii_def)

text \<open>
  C7, amended. For a key that is not registered, \<open>add_document\<close> followed by
  \<open>remove_document\<close> of the same key does not raise and gives back the session as it
  was: the same list of documents, and the same contents.
\<close>

theorem add_then_remove_new_key:
  assumes "filename \<notin> set (get_document_list self)"
  shows "remove_document (add_document self filename content) filename = Inr self
         \<and> map_sum id get_document_list
              (remove_document (add_document self filename content) filename)
            = Inr (get_document_list self)"
proof -
  from assms have absent: "filename \<notin> set (map fst (documents self))"
    by (simp add: get_document_list_def dict_keys_def)
  then have added: "documents (add_document self filename content) =
      documents self @ [(filename, content)]"
    by (simp add: add_document_def dict_setitem_keys_absent)
  have "remove_document (add_document self filename content) filename = Inr self"
    using absent added
    by (simp add: remove_document_def dict_contains_def dict_delitem_appended add_document_def)
  then show ?thesis by simp
qed

theorem add_then_remove_new_key_witness:
  "ascii ''c.csv'' \<notin> set (get_document_list sample_chat)
   \<and> remove_document (add_document sample_chat (ascii ''c.csv'') (ascii ''x,y'')) (ascii ''c.csv'')
       = Inr sample_chat"
  using add_then_remove_new_key [of "ascii ''c.csv''" sample_chat "ascii ''x,y''"]
  by (simp add: sample_chat_def get_document_list_def dict_keys_def ascii_def)

text \<open>
  C8. \<open>remove_document\<close> of a key that is not registered does not raise and returns the
  session unchanged: the same keys with the same contents in the same order.
\<close>

theorem remove_absent_document:
  "filename \<notin> set (get_document_list self) \<Longrightarrow> remove_document self filename = Inr self"
  by (simp add: remove_document_def dict_contains_def get_document_list_def dict_keys_def)

theorem remove_absent_document_witness:
  "ascii ''c.csv'' \<notin> set (get_document_list sample_chat)
   \<and> remove_document sample_chat (ascii ''c.csv'') = Inr sample_chat"
  using remove_absent_document [of "ascii ''c.csv''" sample_chat]
  by (simp add: sample_chat_def get_document_list_def dict_keys_def ascii_def)

text \<open>
  C10. \<open>add_document\<close> with a key that is already registered replaces the content and
  leaves the key where it stands: the list of documents is unchanged, the items are the
  former items with the new content at that key, and the sections that \<open>generate\<close>
  builds come in the same order, one per former item.
\<close>

theorem add_document_overwrite_keeps_position:
  assumes "dict_invariant (documents self)"
    and "filename \<in> set (get_document_list self)"
  shows "get_document_list (add_document self filename content) = get_document_list self
         \<and> documents (add_document self filename content) =
             map (\<lambda>(k, c). (k, if k = filename then content else c)) (documents self)
         \<and> context_parts_loop (documents (add_document self filename content)) [] =
             map (\<lambda>(k, c). ascii ''=== '' @ k @ ascii '' ===\<newline>''
                              @ (if k = filename then content else c))
               (documents self)"
proof -
  from assms have d: "distinct (map fst (documents self))"
    and k: "filename \<in> set (map fst (documents self))"
    by (simp_all add: dict_invariant_def get_document_list_def dict_keys_def)
  have keys: "get_document_list (add_document self filename content) = get_document_list self"
    using k by (simp add: get_document_list_def dict_keys_def add_document_def
        dict_setitem_keys_present)
  have items: "documents (add_document self filename content) =
      map (\<lambda>(k, c). (k, if k = filename then content else c)) (documents self)"
    using d k by (simp add: add_document_def dict_setitem_items)
  have "context_parts_loop (documents (add_document self filename content)) [] =
      map (\<lambda>(k, c). ascii ''=== '' @ k @ ascii '' ===\<newline>'' @ c)
        (map (\<lambda>(k, c). (k, if k = filename then content else c)) (documents self))"
    by (simp only: items context_parts_loop_map append_Nil)
  also have "\<dots> = map (\<lambda>(k, c). ascii ''=== '' @ k @ ascii '' ===\<newline>''
                              @ (if k = filename then content else c))
               (documents self)"
    by (simp add: case_prod_unfold comp_def)
  finally show ?thesis using keys items by simp
qed

theorem add_document_overwrite_keeps_position_witness:
  "dict_invariant (documents sample_chat)
   \<and> ascii ''a.txt'' \<in> set (get_document_list sample_chat)
   \<and> get_document_list (add_document sample_chat (ascii ''a.txt'') (ascii ''new'')) =
       [ascii ''a.txt'', ascii ''b.md'']
   \<and> documents (add_document sample_chat (ascii ''a.txt'') (ascii ''new'')) =
       [(ascii ''a.txt'', ascii ''new''), (ascii ''b.md'', ascii ''beta'')]"
  using add_document_overwrite_keeps_position [of sample_chat "ascii ''a.txt''" "ascii ''new''"]
  by (simp add: sample_chat_def get_document_list_def dict_keys_def dict_invariant_def ascii_def)

section \<open>Claims about the loader\<close>

text \<open>
  C4, as stated, fails for a string that is not a URL: \<open>load\<close> takes it for the path of
  a file, reads the file and extracts its text.
\<close>

theorem load_file_path_counterexample:
  "is_str (Str (ascii ''notes.txt''))
   \<and> \<not> startswith (ascii ''notes.txt'') (ascii ''http://'')
   \<and> \<not> startswith (ascii ''notes.txt'') (ascii ''https://'')
   \<and> load (sample_env ok_response) (Str (ascii ''notes.txt'')) [] = Inr (ascii ''hello'')"
proof -
  have decoded: "load_text (sample_env ok_response) [0x68, 0x65, 0x6C, 0x6C, 0x6F]
      = Inr (ascii ''hello'')"
    by (simp add: load_text_def decode_def utf8_scan_def ascii_def)
  have url: "\<not> startswith (ascii ''notes.txt'') (ascii ''http://'')"
    "\<not> startswith (ascii ''notes.txt'') (ascii ''https://'')"
    by (simp_all add: startswith_def ascii_def)
  have "load_file (sample_env ok_response) (ascii ''notes.txt'') (ascii ''.txt'')
      = Inr (ascii ''hello'')"
    using decoded by (simp add: load_file_def load_bytes_def sample_env_def) (simp add: ascii_def)
  moreover have "str_lower (sample_env ok_response) (suffix (ascii ''notes.txt'')) = ascii ''.txt''"
    by (simp add: suffix_examples sample_env_def) (simp add: ascii_lower_def ascii_def)
  ultimately show ?thesis
    using url by (simp add: load_def)
qed

text \<open>
  C4, amended. For a source that is neither a string nor a bytes object, \<open>load\<close> fails
  with the \<^verbatim>\<open>ValueError\<close> whose message is \<^verbatim>\<open>Unsupported source type:\<close> and the type. A
  string that does not begin with \<^verbatim>\<open>http://\<close> or \<^verbatim>\<open>https://\<close> is the path of a file:
  \<open>load\<close> fails as opening and reading the file fails, and otherwise extracts the bytes
  read by the lower-cased suffix of the path.
\<close>

theorem load_source_kinds:
  "load env (Other t) filename = Inl (ValueError (ascii ''Unsupported source type: '' @ t))
   \<and> (\<not> startswith s (ascii ''http://'') \<and> \<not> startswith s (ascii ''https://'')
        \<longrightarrow> load env (Str s) filename =
             (case open_rb env s of
                Inl e \<Rightarrow> Inl e
              | Inr data \<Rightarrow> load_bytes env data (str_lower env (suffix s))))"
  by (simp add: load_def load_file_def)

theorem load_source_kinds_witness:
  "load (sample_env ok_response) (Other (ascii ''<class 'int'>'')) []
     = Inl (ValueError (ascii ''Unsupported source type: <class 'int'>''))
   \<and> load (sample_env ok_response) (Str (ascii ''missing.txt'')) []
       = Inl (LibraryError ''FileNotFoundError'')"
proof -
  have url: "\<not> startswith (ascii ''missing.txt'') (ascii ''http://'')"
    "\<not> startswith (ascii ''missing.txt'') (ascii ''https://'')"
    by (simp_all add: startswith_def ascii_def)
  have "open_rb (sample_env ok_response) (ascii ''missing.txt'')
      = Inl (LibraryError ''FileNotFoundError'')"
    by (simp add: sample_env_def ascii_def)
  then show ?thesis
    using url load_source_kinds [of "sample_env ok_response" "ascii ''<class 'int'>''" "[]"
        "ascii ''missing.txt''"]
    by (simp add: ascii_def)
qed

text \<open>
  C5, as stated, fails in its last step: when the three strict decodings fail, the bytes
  are decoded as UTF-8 with the malformed bytes dropped, not replaced. The lone byte
  \<^verbatim>\<open>81\<close> is malformed in UTF-8 and the lead byte of a pair in both double-byte codecs: the
  text returned is empty, where decoding with substitution gives U+FFFD.
\<close>

theorem load_text_substitution_counterexample:
  "decode (sample_env ok_response) UTF8 [0x81] = Inl UnicodeDecodeError
   \<and> decode (sample_env ok_response) CP932 [0x81] = Inl UnicodeDecodeError
   \<and> decode (sample_env ok_response) SHIFT_JIS [0x81] = Inl UnicodeDecodeError
   \<and> load_text (sample_env ok_response) [0x81] = Inr []
   \<and> utf8_decode Replace [0x81] = Inr [0xFFFD]"
  using load_text_lone_lead_byte [of "sample_env ok_response"]
  by (simp add: utf8_scan_def is_continuation_def)

text \<open>
  C5, amended. For every byte sequence, \<open>load_text\<close> returns a text and never raises.
  The text is the strict decoding as UTF-8 when that succeeds; else the strict decoding
  as cp932 when that succeeds; else the strict decoding as shift_jis when that succeeds;
  else the decoding as UTF-8 that drops the malformed bytes, which is then different from
  the decoding that substitutes U+FFFD for them.
\<close>

theorem load_text_decoding_order:
  "\<exists>text. load_text env data = Inr text
     \<and> (case decode env UTF8 data of
          Inr s \<Rightarrow> text = s
        | Inl _ \<Rightarrow>
            (case decode env CP932 data of
               Inr s \<Rightarrow> text = s
             | Inl _ \<Rightarrow>
                 (case decode env SHIFT_JIS data of
                    Inr s \<Rightarrow> text = s
                  | Inl _ \<Rightarrow>
                      utf8_decode Ignore data = Inr text
                      \<and> utf8_decode Replace data \<noteq> Inr text)))"
proof -
  obtain t where t: "utf8_decode Ignore data = Inr t"
    using utf8_decode_ignore_total by blast
  have "utf8_decode Replace data \<noteq> Inr t" if "decode env UTF8 data = Inl e" for e
    using that t utf8_ignore_is_not_replace [of data e] by (simp add: decode_def)
  then show ?thesis
    using t
    by (auto simp: load_text_def split: sum.splits dest: decode_error)
qed

theorem load_text_decoding_order_witness:
  "load_text (sample_env ok_response) [0x82, 0xA0] = Inr [0x3042]
   \<and> load_text (sample_env ok_response) [0xE3, 0x81, 0x82] = Inr [0x3042]
   \<and> load_text (sample_env ok_response) [0x81, 0x60] = Inr [0xFF5E]
   \<and> load_text (sample_env ok_response) [0x41, 0x82] = Inr [0x41]"
proof -
  have "decode (sample_env ok_response) UTF8 [0x82, 0xA0] = Inl UnicodeDecodeError"
    "decode (sample_env ok_response) CP932 [0x82, 0xA0] = Inr [0x3042]"
    "decode (sample_env ok_response) UTF8 [0xE3, 0x81, 0x82] = Inr [0x3042]"
    "decode (sample_env ok_response) UTF8 [0x81, 0x60] = Inl UnicodeDecodeError"
    "decode (sample_env ok_response) CP932 [0x81, 0x60] = Inr [0xFF5E]"
    "decode (sample_env ok_response) UTF8 [0x41, 0x82] = Inl UnicodeDecodeError"
    "decode (sample_env ok_response) CP932 [0x41, 0x82] = Inl UnicodeDecodeError"
    "decode (sample_env ok_response) SHIFT_JIS [0x41, 0x82] = Inl UnicodeDecodeError"
    "utf8_decode Ignore [0x41, 0x82] = Inr [0x41]"
    by (simp_all add: decode_def sample_env_def utf8_scan_def is_continuation_def
          cp932_single_def shift_jis_single_def)
  then show ?thesis
    using load_text_decoding_order [of "sample_env ok_response" "[0x82, 0xA0]"]
      load_text_decoding_order [of "sample_env ok_response" "[0xE3, 0x81, 0x82]"]
      load_text_decoding_order [of "sample_env ok_response" "[0x81, 0x60]"]
      load_text_decoding_order [of "sample_env ok_response" "[0x41, 0x82]"]
    by auto
qed



text \<open>
  C9, as stated, fails for a status outside 2xx that is not an error status:
  \<^verbatim>\<open>raise_for_status\<close> returns for the status 304, and \<open>load\<close> extracts the text of the
  body.
\<close>

theorem load_url_not_modified_counterexample:
  "startswith (ascii ''https://example.com/page'') (ascii ''https://'')
   \<and> requests_get (sample_env not_modified) (ascii ''https://example.com/page'') user_agent 10
       = Inr not_modified
   \<and> status_code not_modified = 304
   \<and> load (sample_env not_modified) (Str (ascii ''https://example.com/page'')) [] = Inr []"
  by (simp add: load_def load_web_def raise_for_status_def sample_env_def not_modified_def
        startswith_def strip_def) (simp add: ascii_def)

text \<open>
  C9, amended. For every URL and every response of the fetch with a status from 400 to
  599, \<open>load\<close> fails with \<^verbatim>\<open>HTTPError\<close>, which carries the status.
\<close>

theorem load_url_error_status:
  assumes "startswith url (ascii ''http://'') \<or> startswith url (ascii ''https://'')"
    and "requests_get env url user_agent 10 = Inr response"
    and "400 \<le> status_code response" and "status_code response < 600"
  shows "load env (Str url) filename = Inl (HTTPError (status_code response))"
  using assms by (auto simp: load_def load_web_def raise_for_status_def)

theorem load_url_error_status_witness:
  "startswith (ascii ''http://example.com/gone'') (ascii ''http://'')
   \<and> requests_get (sample_env not_found) (ascii ''http://example.com/gone'') user_agent 10
       = Inr not_found
   \<and> status_code not_found = 404
   \<and> load (sample_env not_found) (Str (ascii ''http://example.com/gone'')) []
       = Inl (HTTPError 404)"
proof -
  have url: "startswith (ascii ''http://example.com/gone'') (ascii ''http://'')"
    by (simp add: startswith_def ascii_def)
  have get: "requests_get (sample_env not_found) (ascii ''http://example.com/gone'') user_agent 10
      = Inr not_found"
    by (simp add: sample_env_def)
  have code: "status_code not_found = 404"
    by (simp add: not_found_def)
  show ?thesis
    using url get code
      load_url_error_status [of "ascii ''http://example.com/gone''" "sample_env not_found"
        not_found "[]"]
    by simp
qed

end
